theory Spec2Isabelle
  imports Main "HOL-Library.Word"
begin

section \<open>Filesystem type lookup (package disk)\<close>

text \<open>
  \<^verbatim>\<open>getFSType\<close> renders its \<^verbatim>\<open>int64\<close> argument with
  \<^verbatim>\<open>strconv.FormatInt(fsType, 16)\<close> and looks the rendering up in the table
  \<^verbatim>\<open>fsType2StringMap\<close>. An \<^verbatim>\<open>int64\<close> is a \<^typ>\<open>64 word\<close> read with
  \<^const>\<open>sint\<close>.
\<close>

type_synonym int64 = "64 word"

text \<open>The digit alphabet of the Go formatter; digit \<open>d\<close> is the \<open>d\<close>-th character.\<close>

definition digits :: string where
  "digits = ''0123456789abcdefghijklmnopqrstuvwxyz''"

text \<open>
  The digit loop of the formatter on the magnitude \<open>u\<close>: while \<open>u \<ge> b\<close> the digit
  \<open>u mod b\<close> is written in front of what is already there and \<open>u\<close> becomes \<open>u div b\<close>;
  the last digit is \<open>u\<close> itself. The buffer is filled from its end, so \<open>acc\<close> holds the
  digits written so far.
\<close>

function formatBits :: "nat \<Rightarrow> nat \<Rightarrow> string \<Rightarrow> string" where
  "formatBits u b acc =
     (if 2 \<le> b \<and> b \<le> u then formatBits (u div b) b ((digits ! (u mod b)) # acc)
      else (digits ! u) # acc)"
  by pat_completeness auto
termination
  by (relation "measure (\<lambda>(u, b, acc). u)") auto

declare formatBits.simps [simp del]

text \<open>
  \<^verbatim>\<open>strconv.FormatInt(i, base)\<close>: the magnitude is \<^verbatim>\<open>uint64(i)\<close>, negated (in 64 bits)
  when \<open>i\<close> is negative, and a minus sign is put in front of the digits of a negative
  number. The calls of this development use the bases 16 and 10; Go panics on a base
  outside 2 to 36, which no call here passes.
\<close>

definition FormatInt :: "int64 \<Rightarrow> nat \<Rightarrow> string" where
  "FormatInt i base =
     (let neg = sint i < 0;
          u = (if neg then - i else i);
          ds = formatBits (unat u) base []
      in if neg then CHR ''-'' # ds else ds)"

text \<open>The table, in the order of the source; a Go map literal has unique keys.\<close>

definition fsType2StringMap :: "(string \<times> string) list" where
  "fsType2StringMap =
     [(''1021994'', ''TMPFS''),
      (''137d'', ''EXT''),
      (''4244'', ''HFS''),
      (''4d44'', ''MSDOS''),
      (''52654973'', ''REISERFS''),
      (''5346544e'', ''NTFS''),
      (''58465342'', ''XFS''),
      (''61756673'', ''AUFS''),
      (''6969'', ''NFS''),
      (''ef51'', ''EXT2OLD''),
      (''ef53'', ''EXT4''),
      (''f15f'', ''ecryptfs'')]"

definition getFSType :: "int64 \<Rightarrow> string" where
  "getFSType fsType =
     (let fsTypeHex = FormatInt fsType 16
      in case map_of fsType2StringMap fsTypeHex of
           None \<Rightarrow> ''UNKNOWN''
         | Some fsTypeString \<Rightarrow> fsTypeString)"

text \<open>
  Reading a lower-case hexadecimal numeral back: the inverse of the digit loop at base 16,
  used to identify the inputs that hit a key of the table.
\<close>

definition hexval :: "char \<Rightarrow> nat" where
  "hexval c = (let n = (of_char c :: nat) in if 48 \<le> n \<and> n \<le> 57 then n - 48 else n - 87)"

definition parseHex :: "string \<Rightarrow> nat" where
  "parseHex s = foldl (\<lambda>a c. 16 * a + hexval c) 0 s"


section \<open>Process outcomes and actions on the process state\<close>

text \<open>
  A Go statement either lets the program go on with a value, ends the process with an exit
  status and a message on the error stream, or panics (a failed type assertion is a
  run-time panic). The spec speaks of a non-zero status only, so the status is one of two.
\<close>

datatype exit_status = ExitZero | ExitNonZero

datatype 'a proc = Continues 'a | Terminated exit_status string | Panicked

section \<open>The prefix trie\<close>

text \<open>
  The trie package is used by \<^verbatim>\<open>main.go\<close> (\<^verbatim>\<open>commandsTree.PrefixMatch\<close>), its code is
  not among the sources. The values it hands back are of interface type: the caller
  asserts each one to be a string, so a value is a string or something else.
\<close>

datatype iface = StringVal string | OtherVal nat

text \<open>
  Modelled from the spec: the trie node (section 3, TrieNode): a mapping from single
  characters to child nodes with unique keys, and an optional terminal marker carrying the
  associated value. The children are kept in the order of their creation, which makes the
  traversal order a fixed one. A character is one \<^typ>\<open>char\<close> of the key.
\<close>

datatype 'v TrieNode =
  TrieNode (terminal: "'v option") (children: "(char \<times> 'v TrieNode) list")

text \<open>Modelled from the spec: the trie without any key, a root that is not terminal.\<close>

definition NewTrie :: "'v TrieNode" where
  "NewTrie = TrieNode None []"

text \<open>
  Modelled from the spec: the child reached by character \<open>c\<close> is replaced where the node has
  one, and created behind the existing children where it has none (keys stay unique).
\<close>

fun setChild :: "char \<Rightarrow> 'v TrieNode \<Rightarrow> (char \<times> 'v TrieNode) list \<Rightarrow> (char \<times> 'v TrieNode) list" where
  "setChild c n [] = [(c, n)]"
| "setChild c n ((d, m) # cs) =
     (if c = d then (d, n) # cs else (d, m) # setChild c n cs)"

text \<open>
  Modelled from the spec: \<^verbatim>\<open>Insert(key, value)\<close> (section 4.1) walks the key character by
  character from the root, creating nodes as needed, and marks the final node terminal
  with the value; inserting an existing key again overwrites its value.
\<close>

primrec Insert :: "string \<Rightarrow> 'v \<Rightarrow> 'v TrieNode \<Rightarrow> 'v TrieNode" where
  "Insert [] v n = TrieNode (Some v) (children n)"
| "Insert (c # key) v n =
     TrieNode (terminal n)
       (setChild c
          (Insert key v (case map_of (children n) c of None \<Rightarrow> NewTrie | Some m \<Rightarrow> m))
          (children n))"

text \<open>
  Modelled from the spec: the walk from a node along a prefix; a character without a
  matching child ends it without a node.
\<close>

primrec findNode :: "string \<Rightarrow> 'v TrieNode \<Rightarrow> 'v TrieNode option" where
  "findNode [] n = Some n"
| "findNode (c # key) n =
     (case map_of (children n) c of None \<Rightarrow> None | Some m \<Rightarrow> findNode key m)"

text \<open>
  Modelled from the spec: the traversal of a subtree collecting every terminal value
  beneath a node, the node's own value first, then the children in their order.
\<close>

fun Walk :: "'v TrieNode \<Rightarrow> 'v list" where
  "Walk (TrieNode t cs) =
     (case t of None \<Rightarrow> [] | Some v \<Rightarrow> [v]) @ concat (map (\<lambda>(c, n). Walk n) cs)"

text \<open>
  Modelled from the spec: \<^verbatim>\<open>PrefixMatch(prefix)\<close> (section 4.1): the empty sequence when
  the prefix leaves the trie, the traversal of the node reached otherwise.
\<close>

definition PrefixMatch :: "string \<Rightarrow> 'v TrieNode \<Rightarrow> 'v list" where
  "PrefixMatch prefix root =
     (case findNode prefix root of None \<Rightarrow> [] | Some n \<Rightarrow> Walk n)"

section \<open>The process state\<close>

text \<open>
  A command and a flag descriptor (\<^verbatim>\<open>cli.Command\<close>, \<^verbatim>\<open>cli.Flag\<close>); the action handler
  of a command is an opaque reference, here a number.
\<close>

record Command =
  Name :: string
  Usage :: string
  Description :: string
  Action :: nat

record Flag =
  FlagName :: string
  FlagAliases :: "string list"
  FlagDefault :: string
  FlagUsage :: string
  FlagGlobal :: bool

text \<open>
  The calls that reach outside the program text of \<^verbatim>\<open>main.go\<close>, in the order they are
  made: the trace of a run.
\<close>

datatype event =
    EvUserCurrent
  | EvGeteuid
  | EvCheckGolangRuntimeVersion
  | EvProbeInit
  | EvRegisterCommand string
  | EvRegisterFlag string
  | EvRunAndExitOnError

text \<open>
  The package-level variables \<^verbatim>\<open>commands\<close>, \<^verbatim>\<open>flags\<close> and \<^verbatim>\<open>commandsTree\<close> that
  \<^verbatim>\<open>main.go\<close> reads, together with the trace.
\<close>

record pstate =
  trace :: "event list"
  commands :: "Command list"
  flags :: "Flag list"
  commandsTree :: "iface TrieNode"

text \<open>
  Modelled from the spec: the registries and the trie are empty when the process starts
  (section 3, lifecycle); Go initialises package-level variables before any \<^verbatim>\<open>init\<close>.
\<close>

definition initialState :: pstate where
  "initialState = \<lparr>trace = [], commands = [], flags = [], commandsTree = NewTrie\<rparr>"

type_synonym 'a action = "pstate \<Rightarrow> 'a proc \<times> pstate"

text \<open>Sequencing of statements: what follows a statement runs only when it continues.\<close>

definition bind :: "'a action \<Rightarrow> ('a \<Rightarrow> 'b action) \<Rightarrow> 'b action" where
  "bind m f s =
     (case m s of
        (Continues a, s') \<Rightarrow> f a s'
      | (Terminated st msg, s') \<Rightarrow> (Terminated st msg, s')
      | (Panicked, s') \<Rightarrow> (Panicked, s'))"

definition seq :: "unit action \<Rightarrow> 'b action \<Rightarrow> 'b action" where
  "seq m n = bind m (\<lambda>_. n)"

definition ret :: "'a \<Rightarrow> 'a action" where
  "ret a s = (Continues a, s)"

definition logEvent :: "event \<Rightarrow> unit action" where
  "logEvent e s = (Continues (), s\<lparr>trace := trace s @ [e]\<rparr>)"

text \<open>
  Modelled from the spec: \<^verbatim>\<open>Fatalln\<close> and \<^verbatim>\<open>Fatalf\<close> (section 6, exit codes): a fatal
  failure terminates the process with a non-zero status and a human-readable message on
  the error stream. \<^verbatim>\<open>Fatalf\<close> gets its message already formatted.
\<close>

definition Fatalln :: "string \<Rightarrow> 'a action" where
  "Fatalln msg s = (Terminated ExitNonZero msg, s)"

definition Fatalf :: "string \<Rightarrow> 'a action" where
  "Fatalf msg s = (Terminated ExitNonZero msg, s)"

section \<open>The registries\<close>

datatype error = DuplicateCommand string | DuplicateFlag string

text \<open>
  Modelled from the spec: \<^verbatim>\<open>RegisterCommand(cmd)\<close> (section 4.2) fails with a
  configuration error if the name already exists; otherwise it appends the command to the
  ordered command list and inserts name \<open>\<mapsto>\<close> name into the shared trie. The result is the
  error, if any, and the state after the call.
\<close>

definition RegisterCommand :: "Command \<Rightarrow> pstate \<Rightarrow> error option \<times> pstate" where
  "RegisterCommand cmd s =
     (if Name cmd \<in> set (map Name (commands s)) then (Some (DuplicateCommand (Name cmd)), s)
      else (None, s\<lparr>commands := commands s @ [cmd],
                     commandsTree := Insert (Name cmd) (StringVal (Name cmd)) (commandsTree s)\<rparr>))"

text \<open>
  Modelled from the spec: \<^verbatim>\<open>RegisterFlag(flag)\<close> (section 4.2) fails if the name collides
  with an existing flag at the same scope; otherwise it appends to the ordered flag list.
\<close>

definition RegisterFlag :: "Flag \<Rightarrow> pstate \<Rightarrow> error option \<times> pstate" where
  "RegisterFlag flag s =
     (if (FlagName flag, FlagGlobal flag) \<in> set (map (\<lambda>f. (FlagName f, FlagGlobal f)) (flags s))
      then (Some (DuplicateFlag (FlagName flag)), s)
      else (None, s\<lparr>flags := flags s @ [flag]\<rparr>))"

text \<open>
  Modelled from the spec: the calls \<^verbatim>\<open>registerCommand(c)\<close> and \<^verbatim>\<open>registerFlag(f)\<close> of
  \<^verbatim>\<open>registerApp\<close> return nothing; a registration conflict propagates immediately to the
  top level and terminates the process (section 7).
\<close>

definition registerCommand :: "Command \<Rightarrow> unit action" where
  "registerCommand cmd =
     seq (logEvent (EvRegisterCommand (Name cmd)))
       (\<lambda>s. case RegisterCommand cmd s of
              (Some e, s') \<Rightarrow> Fatalln ''configuration error: duplicate command'' s'
            | (None, s') \<Rightarrow> (Continues (), s'))"

definition registerFlag :: "Flag \<Rightarrow> unit action" where
  "registerFlag flag =
     seq (logEvent (EvRegisterFlag (FlagName flag)))
       (\<lambda>s. case RegisterFlag flag s of
              (Some e, s') \<Rightarrow> Fatalln ''configuration error: duplicate flag'' s'
            | (None, s') \<Rightarrow> (Continues (), s'))"

section \<open>The program of main.go\<close>

text \<open>
  What the program reads from outside: the results of \<^verbatim>\<open>user.Current\<close>,
  \<^verbatim>\<open>os.Geteuid\<close> and \<^verbatim>\<open>os.Hostname\<close> (a value and an error, as Go returns them), the
  memory statistics, the constants of package \<^verbatim>\<open>runtime\<close>, and \<^verbatim>\<open>humanize.Bytes\<close> of
  the go-humanize library, taken as it is.
\<close>

record MemStats =
  Alloc :: "64 word"
  TotalAlloc :: "64 word"
  HeapAlloc :: "64 word"
  HeapSys :: "64 word"

record env =
  userCurrentErr :: "string option"
  euid :: int
  runtimeBelowMinimum :: bool
  hostname :: "string \<times> string option"
  memstats :: MemStats
  GOOS :: string
  GOARCH :: string
  Version :: string
  NumCPU :: int64
  humanizeBytes :: "64 word \<Rightarrow> string"

text \<open>
  The declarations \<^verbatim>\<open>registerApp\<close> registers; they live in other files of the package and
  are parameters here.
\<close>

record declarations =
  xlCmd :: Command
  serverCmd :: Command
  controllerCmd :: Command
  versionCmd :: Command
  addressFlag :: Flag
  addressControllerFlag :: Flag
  addressServerRPCFlag :: Flag
  ratelimitFlag :: Flag
  anonymousFlag :: Flag
  certFlag :: Flag
  keyFlag :: Flag
  jsonFlag :: Flag

text \<open>
  The typographic quotes of the messages are three bytes each in the UTF-8 source text.
\<close>

definition lquote :: string where
  "lquote = [CHR 0xE2, CHR 0x80, CHR 0x98]"

definition rquote :: string where
  "rquote = [CHR 0xE2, CHR 0x80, CHR 0x99]"

definition newline :: string where
  "newline = [CHR 0x0A]"

text \<open>
  Modelled from the spec: \<^verbatim>\<open>checkGolangRuntimeVersion\<close> (section 4.5, step 3) is fatal if
  the runtime version is below a supported minimum; the comparison is the environment's.
\<close>

definition checkGolangRuntimeVersion :: "env \<Rightarrow> unit action" where
  "checkGolangRuntimeVersion e =
     seq (logEvent EvCheckGolangRuntimeVersion)
       (if runtimeBelowMinimum e
        then Fatalln ''runtime version is below the supported minimum''
        else ret ())"

text \<open>\<^verbatim>\<open>init\<close>: the checks of the environment, in the order of the source.\<close>

definition init :: "env \<Rightarrow> unit action" where
  "init e =
     seq (logEvent EvUserCurrent)
       (case userCurrentErr e of
          Some err \<Rightarrow>
            Fatalf (''Unable to obtain user's home directory. '' @ newline @
                    ''Error: '' @ err @ newline)
        | None \<Rightarrow>
            seq (logEvent EvGeteuid)
              (if euid e = 0
               then Fatalln (''Please run '' @ lquote @ ''minio'' @ rquote @
                             '' as a non-root user.'')
               else checkGolangRuntimeVersion e))"

text \<open>\<^verbatim>\<open>strconv.Itoa(i)\<close> is \<^verbatim>\<open>FormatInt(int64(i), 10)\<close>.\<close>

definition Itoa :: "int64 \<Rightarrow> string" where
  "Itoa i = FormatInt i 10"

text \<open>
  \<^verbatim>\<open>getSystemData\<close>: the host name, replaced by the empty string when its lookup
  returned an error, and the three formatted entries of the map.
\<close>

definition getSystemData :: "env \<Rightarrow> (string \<rightharpoonup> string)" where
  "getSystemData e =
     (let host = (case snd (hostname e) of Some err \<Rightarrow> [] | None \<Rightarrow> fst (hostname e));
          mem = ''Used: '' @ humanizeBytes e (Alloc (memstats e)) @
                '' | Allocated: '' @ humanizeBytes e (TotalAlloc (memstats e)) @
                '' | Used-Heap: '' @ humanizeBytes e (HeapAlloc (memstats e)) @
                '' | Allocated-Heap: '' @ humanizeBytes e (HeapSys (memstats e));
          platform = ''Host: '' @ host @ '' | OS: '' @ GOOS e @ '' | Arch: '' @ GOARCH e;
          goruntime = ''Version: '' @ Version e @ '' | CPUs: '' @ Itoa (NumCPU e)
      in [''PLATFORM'' \<mapsto> platform, ''RUNTIME'' \<mapsto> goruntime, ''MEM'' \<mapsto> mem])"

text \<open>
  The loop of \<^verbatim>\<open>findClosestCommands\<close>: each value of the prefix match is asserted to be
  a string and appended; the assertion panics on any other value.
\<close>

fun appendClosest :: "string list \<Rightarrow> iface list \<Rightarrow> string list proc" where
  "appendClosest closestCommands [] = Continues closestCommands"
| "appendClosest closestCommands (StringVal v # vs) = appendClosest (closestCommands @ [v]) vs"
| "appendClosest closestCommands (OtherVal x # vs) = Panicked"

definition findClosestCommands :: "string \<Rightarrow> string list action" where
  "findClosestCommands command s =
     (appendClosest [] (PrefixMatch command (commandsTree s)), s)"

text \<open>
  The message of the \<^verbatim>\<open>CommandNotFound\<close> handler: the first line, then, when there are
  closest commands, the heading and one quoted line for each of them, appended in a loop.
\<close>

definition notFoundMessage :: "string \<Rightarrow> string list \<Rightarrow> string" where
  "notFoundMessage command closestCommands =
     (let msg = lquote @ command @ rquote @ '' is not a minio-xl sub-command. See '' @
                lquote @ ''minio-xl help'' @ rquote @ ''.''
      in if length closestCommands > 0
         then foldl (\<lambda>msg cmd. msg @ ''        '' @ lquote @ cmd @ rquote @ newline)
                (msg @ newline @ newline @ ''Did you mean one of these?'' @ newline)
                closestCommands
         else msg)"

definition CommandNotFound :: "string \<Rightarrow> unit action" where
  "CommandNotFound command =
     bind (findClosestCommands command)
       (\<lambda>closestCommands. Fatalln (notFoundMessage command closestCommands))"

text \<open>The application descriptor \<^verbatim>\<open>registerApp\<close> returns, as far as it is data.\<close>

record App =
  AppName :: string
  HideVersion :: bool
  Author :: string
  AppUsage :: string
  AppFlags :: "Flag list"
  AppCommands :: "Command list"

text \<open>
  \<^verbatim>\<open>registerApp\<close>: the four commands, then the eight flags, then the descriptor, which
  takes the registered flags and commands as they are at that moment.
\<close>

definition registerApp :: "declarations \<Rightarrow> App action" where
  "registerApp d =
     seq (registerCommand (xlCmd d))
    (seq (registerCommand (serverCmd d))
    (seq (registerCommand (controllerCmd d))
    (seq (registerCommand (versionCmd d))
    (seq (registerFlag (addressFlag d))
    (seq (registerFlag (addressControllerFlag d))
    (seq (registerFlag (addressServerRPCFlag d))
    (seq (registerFlag (ratelimitFlag d))
    (seq (registerFlag (anonymousFlag d))
    (seq (registerFlag (certFlag d))
    (seq (registerFlag (keyFlag d))
    (seq (registerFlag (jsonFlag d))
      (\<lambda>s. (Continues \<lparr>AppName = ''minio-xl'', HideVersion = True, Author = ''Minio.io'',
                         AppUsage = ''Minio Cloud Storage'', AppFlags = flags s,
                         AppCommands = commands s\<rparr>, s)))))))))))))"

text \<open>
  \<^verbatim>\<open>main\<close>: the probe is initialised, the application is registered and handed to the
  argument parser, an external collaborator whose run is one event here.
\<close>

definition main :: "declarations \<Rightarrow> unit action" where
  "main d =
     seq (logEvent EvProbeInit)
       (bind (registerApp d) (\<lambda>app. logEvent EvRunAndExitOnError))"

text \<open>A run of the process: Go runs \<^verbatim>\<open>init\<close> before \<^verbatim>\<open>main\<close>, from the initial state.\<close>

definition program :: "env \<Rightarrow> declarations \<Rightarrow> unit proc \<times> pstate" where
  "program e d = seq (init e) (main d) initialState"

text \<open>Predicates of the statements below.\<close>

fun isStringVal :: "iface \<Rightarrow> bool" where
  "isStringVal (StringVal v) = True"
| "isStringVal (OtherVal x) = False"

fun theString :: "iface \<Rightarrow> string" where
  "theString (StringVal v) = v"
| "theString (OtherVal x) = []"

definition stringValued :: "iface TrieNode \<Rightarrow> bool" where
  "stringValued t = list_all isStringVal (Walk t)"

fun isRegistration :: "event \<Rightarrow> bool" where
  "isRegistration (EvRegisterCommand n) = True"
| "isRegistration (EvRegisterFlag n) = True"
| "isRegistration e = False"

text \<open>The registry of the scenario: four commands registered in the order given.\<close>

definition mkCommand :: "string \<Rightarrow> Command" where
  "mkCommand n = \<lparr>Name = n, Usage = [], Description = [], Action = 0\<rparr>"

definition scenarioState :: pstate where
  "scenarioState =
     snd (RegisterCommand (mkCommand ''version'')
       (snd (RegisterCommand (mkCommand ''controller'')
         (snd (RegisterCommand (mkCommand ''gateway'')
           (snd (RegisterCommand (mkCommand ''server'') initialState)))))))"


text \<open>
  Relations between a state and a later one, for what a sequence of statements keeps:
  the trace only grows and never by another identity lookup; a trie of strings stays one.
\<close>

definition stepsTo :: "(pstate \<Rightarrow> pstate \<Rightarrow> bool) \<Rightarrow> 'a action \<Rightarrow> bool" where
  "stepsTo R m = (\<forall>s. R s (snd (m s)))"

definition noRelookup :: "pstate \<Rightarrow> pstate \<Rightarrow> bool" where
  "noRelookup s s' = (\<exists>more. trace s' = trace s @ more \<and> EvUserCurrent \<notin> set more)"

definition keepsStrings :: "pstate \<Rightarrow> pstate \<Rightarrow> bool" where
  "keepsStrings s s' = (stringValued (commandsTree s) \<longrightarrow> stringValued (commandsTree s'))"

text \<open>A concrete environment and concrete declarations, for runs on closed inputs.\<close>

definition sampleEnv :: env where
  "sampleEnv =
     \<lparr>userCurrentErr = None, euid = 1000, runtimeBelowMinimum = False,
      hostname = (''ignored'', Some ''no such host''),
      memstats = \<lparr>Alloc = 1, TotalAlloc = 2, HeapAlloc = 3, HeapSys = 4\<rparr>,
      GOOS = ''linux'', GOARCH = ''amd64'', Version = ''go1.5'', NumCPU = 4,
      humanizeBytes = (\<lambda>b. ''0 B'')\<rparr>"

definition mkFlag :: "string \<Rightarrow> Flag" where
  "mkFlag n = \<lparr>FlagName = n, FlagAliases = [], FlagDefault = [], FlagUsage = [],
               FlagGlobal = True\<rparr>"

definition sampleDeclarations :: declarations where
  "sampleDeclarations =
     \<lparr>xlCmd = mkCommand ''xl'', serverCmd = mkCommand ''server'',
      controllerCmd = mkCommand ''controller'', versionCmd = mkCommand ''version'',
      addressFlag = mkFlag ''address'', addressControllerFlag = mkFlag ''address-controller'',
      addressServerRPCFlag = mkFlag ''address-server-rpc'', ratelimitFlag = mkFlag ''ratelimit'',
      anonymousFlag = mkFlag ''anonymous'', certFlag = mkFlag ''cert'',
      keyFlag = mkFlag ''key'', jsonFlag = mkFlag ''json''\<rparr>"

section \<open>Properties of the filesystem type lookup\<close>

lemma digits_nth_hexval_all: "\<forall>d\<in>set [0..<16]. hexval (digits ! d) = d"
  by code_simp

lemma digits_nth_hexval: "d < 16 \<Longrightarrow> hexval (digits ! d) = d"
  using digits_nth_hexval_all by simp

lemma formatBits_rec:
  "2 \<le> b \<Longrightarrow> b \<le> u \<Longrightarrow>
   formatBits u b acc = formatBits (u div b) b ((digits ! (u mod b)) # acc)"
  by (subst formatBits.simps) simp

lemma formatBits_base:
  "\<not> (2 \<le> b \<and> b \<le> u) \<Longrightarrow> formatBits u b acc = (digits ! u) # acc"
  by (subst formatBits.simps) auto

lemma formatBits_acc: "formatBits u b acc = formatBits u b [] @ acc"
proof (induction u arbitrary: acc rule: less_induct)
  case (less u)
  show ?case
  proof (cases "2 \<le> b \<and> b \<le> u")
    case True
    then have lt: "u div b < u" by simp
    have "formatBits u b acc = formatBits (u div b) b ((digits ! (u mod b)) # acc)"
      using True by (simp add: formatBits_rec)
    also have "\<dots> = formatBits (u div b) b [] @ ((digits ! (u mod b)) # acc)"
      by (rule less.IH[OF lt])
    also have "\<dots> = (formatBits (u div b) b [] @ [digits ! (u mod b)]) @ acc"
      by simp
    also have "formatBits (u div b) b [] @ [digits ! (u mod b)] = formatBits (u div b) b [digits ! (u mod b)]"
      by (rule less.IH[OF lt, symmetric])
    also have "\<dots> = formatBits u b []"
      using True by (simp add: formatBits_rec)
    finally show ?thesis .
  next
    case False
    then show ?thesis by (simp add: formatBits_base)
  qed
qed

lemma formatBits_step:
  "2 \<le> b \<Longrightarrow> b \<le> u \<Longrightarrow> formatBits u b [] = formatBits (u div b) b [] @ [digits ! (u mod b)]"
  using formatBits_acc[of "u div b" b "[digits ! (u mod b)]"] by (simp add: formatBits_rec)

lemma parseHex_snoc: "parseHex (s @ [c]) = 16 * parseHex s + hexval c"
  by (simp add: parseHex_def)

lemma parseHex_formatBits: "parseHex (formatBits u 16 []) = u"
proof (induction u rule: less_induct)
  case (less u)
  show ?case
  proof (cases "16 \<le> u")
    case True
    then have "u div 16 < u" by simp
    then have ih: "parseHex (formatBits (u div 16) 16 []) = u div 16" by (rule less.IH)
    have "formatBits u 16 [] = formatBits (u div 16) 16 [] @ [digits ! (u mod 16)]"
      using True by (intro formatBits_step) simp_all
    then have "parseHex (formatBits u 16 []) = 16 * (u div 16) + hexval (digits ! (u mod 16))"
      using ih by (simp only: parseHex_snoc)
    also have "hexval (digits ! (u mod 16)) = u mod 16"
      by (rule digits_nth_hexval) simp
    finally show ?thesis by simp
  next
    case False
    then have "formatBits u 16 [] = [digits ! u]" by (intro formatBits_base) simp
    then show ?thesis using False
      by (simp add: parseHex_def digits_nth_hexval)
  qed
qed

lemma formatBits_nonempty: "formatBits u b acc \<noteq> []"
proof (cases "2 \<le> b \<and> b \<le> u")
  case True
  then have "formatBits u b [] = formatBits (u div b) b [] @ [digits ! (u mod b)]"
    by (intro formatBits_step) simp_all
  then show ?thesis by (subst formatBits_acc) simp
next
  case False
  then show ?thesis by (simp add: formatBits_base)
qed

lemma FormatInt_neg:
  "sint i < 0 \<Longrightarrow> FormatInt i b = CHR ''-'' # formatBits (unat (- i)) b []"
  by (simp add: FormatInt_def)

lemma FormatInt_nonneg:
  "\<not> sint i < 0 \<Longrightarrow> FormatInt i b = formatBits (unat i) b []"
  by (simp add: FormatInt_def)

lemma FormatInt_nonempty: "FormatInt i b \<noteq> []"
  by (simp add: FormatInt_def Let_def formatBits_nonempty)

lemma map_of_minus: "map_of fsType2StringMap (CHR ''-'' # s) = None"
  by (simp add: fsType2StringMap_def)

lemma table_values:
  "map_of fsType2StringMap k = Some v \<Longrightarrow> v \<noteq> [] \<and> v \<noteq> ''UNKNOWN''"
  by (auto simp: fsType2StringMap_def split: if_splits)

lemma sint_of_nat_small:
  "n < 2 ^ 63 \<Longrightarrow> sint (of_nat n :: int64) = int n"
  by (simp add: signed_of_nat signed_take_bit_int_eq_self)

lemma FormatInt_key_iff:
  assumes p: "parseHex k = n" and f: "formatBits n 16 [] = k"
    and n: "n < 2 ^ 63" and k: "hd k \<noteq> CHR ''-''"
  shows "(FormatInt x 16 = k) = (x = (of_nat n :: int64))"
proof (cases "sint x < 0")
  case True
  have "sint (of_nat n :: int64) = int n"
    using n by (rule sint_of_nat_small)
  then have "x \<noteq> of_nat n" using True by auto
  moreover have "FormatInt x 16 \<noteq> k"
    using k by (auto simp: FormatInt_neg[OF True])
  ultimately show ?thesis by simp
next
  case False
  have un: "unat (of_nat n :: int64) = n"
  proof (rule of_nat_inverse)
    show "(of_nat n :: int64) = of_nat n" by simp
    show "n < 2 ^ LENGTH(64)" using n by simp
  qed
  show ?thesis
  proof
    assume "FormatInt x 16 = k"
    then have "parseHex (formatBits (unat x) 16 []) = parseHex k"
      by (simp add: FormatInt_nonneg[OF False])
    then have "unat x = n" by (simp add: parseHex_formatBits p)
    then show "x = of_nat n" by (simp add: word_unat_eq_iff un)
  next
    assume "x = of_nat n"
    then show "FormatInt x 16 = k"
      using False by (simp add: FormatInt_nonneg un f)
  qed
qed

lemma getFSType_cases:
  "(case map_of fsType2StringMap (FormatInt fsType 16) of
      Some name \<Rightarrow> getFSType fsType = name \<and> name \<noteq> ''UNKNOWN''
    | None \<Rightarrow> getFSType fsType = ''UNKNOWN'')"
  by (auto simp: getFSType_def dest: table_values split: option.splits)

lemma getFSType_nonempty: "getFSType fsType \<noteq> []"
  by (auto simp: getFSType_def dest: table_values split: option.splits)

lemma getFSType_negative: "sint fsType < 0 \<Longrightarrow> getFSType fsType = ''UNKNOWN''"
  by (simp add: getFSType_def FormatInt_neg map_of_minus)

lemma FormatInt_keys:
  "(FormatInt x 16 = ''1021994'') = (x = 0x1021994)"
  "(FormatInt x 16 = ''137d'') = (x = 0x137d)"
  "(FormatInt x 16 = ''4244'') = (x = 0x4244)"
  "(FormatInt x 16 = ''4d44'') = (x = 0x4d44)"
  "(FormatInt x 16 = ''52654973'') = (x = 0x52654973)"
  "(FormatInt x 16 = ''5346544e'') = (x = 0x5346544e)"
  "(FormatInt x 16 = ''58465342'') = (x = 0x58465342)"
  "(FormatInt x 16 = ''61756673'') = (x = 0x61756673)"
  "(FormatInt x 16 = ''6969'') = (x = 0x6969)"
  "(FormatInt x 16 = ''ef51'') = (x = 0xef51)"
  "(FormatInt x 16 = ''ef53'') = (x = 0xef53)"
  "(FormatInt x 16 = ''f15f'') = (x = 0xf15f)"
  using FormatInt_key_iff[of "''1021994''" "0x1021994" x]
  using FormatInt_key_iff[of "''137d''" "0x137d" x]
  using FormatInt_key_iff[of "''4244''" "0x4244" x]
  using FormatInt_key_iff[of "''4d44''" "0x4d44" x]
  using FormatInt_key_iff[of "''52654973''" "0x52654973" x]
  using FormatInt_key_iff[of "''5346544e''" "0x5346544e" x]
  using FormatInt_key_iff[of "''58465342''" "0x58465342" x]
  using FormatInt_key_iff[of "''61756673''" "0x61756673" x]
  using FormatInt_key_iff[of "''6969''" "0x6969" x]
  using FormatInt_key_iff[of "''ef51''" "0xef51" x]
  using FormatInt_key_iff[of "''ef53''" "0xef53" x]
  using FormatInt_key_iff[of "''f15f''" "0xf15f" x]
  by (simp_all add: parseHex_def hexval_def formatBits_rec formatBits_base digits_def)

lemma getFSType_table:
  "getFSType x =
     (if x = 0x1021994 then ''TMPFS''
      else if x = 0x137d then ''EXT''
      else if x = 0x4244 then ''HFS''
      else if x = 0x4d44 then ''MSDOS''
      else if x = 0x52654973 then ''REISERFS''
      else if x = 0x5346544e then ''NTFS''
      else if x = 0x58465342 then ''XFS''
      else if x = 0x61756673 then ''AUFS''
      else if x = 0x6969 then ''NFS''
      else if x = 0xef51 then ''EXT2OLD''
      else if x = 0xef53 then ''EXT4''
      else if x = 0xf15f then ''ecryptfs''
      else ''UNKNOWN'')"
  by (simp add: getFSType_def fsType2StringMap_def FormatInt_keys)


text \<open>
  Claim C9. \<^verbatim>\<open>getFSType\<close> is total on \<^verbatim>\<open>int64\<close>: its result is never the empty
  string; it is the mapped filesystem name exactly when the lower-case hexadecimal rendering
  of the input is a key of \<^verbatim>\<open>fsType2StringMap\<close>, and \<^verbatim>\<open>UNKNOWN\<close> exactly when it
  is not; every negative input gives \<^verbatim>\<open>UNKNOWN\<close>.
\<close>

theorem getFSType_total:
  "getFSType fsType \<noteq> [] \<and>
   (\<forall>name. map_of fsType2StringMap (FormatInt fsType 16) = Some name
      \<longrightarrow> getFSType fsType = name) \<and>
   (FormatInt fsType 16 \<notin> dom (map_of fsType2StringMap)
      \<longleftrightarrow> getFSType fsType = ''UNKNOWN'') \<and>
   (sint fsType < 0 \<longrightarrow> getFSType fsType = ''UNKNOWN'')"
proof -
  have cases: "case map_of fsType2StringMap (FormatInt fsType 16) of
      Some name \<Rightarrow> getFSType fsType = name \<and> name \<noteq> ''UNKNOWN''
    | None \<Rightarrow> getFSType fsType = ''UNKNOWN''"
    by (rule getFSType_cases)
  have "\<forall>name. map_of fsType2StringMap (FormatInt fsType 16) = Some name
      \<longrightarrow> getFSType fsType = name"
    using cases by (auto split: option.splits)
  moreover have "FormatInt fsType 16 \<notin> dom (map_of fsType2StringMap)
      \<longleftrightarrow> getFSType fsType = ''UNKNOWN''"
    using cases by (auto simp: dom_def split: option.splits)
  ultimately show ?thesis
    using getFSType_nonempty getFSType_negative by blast
qed

theorem getFSType_total_witness:
  "sint (- 1 :: int64) < 0 \<and> getFSType (- 1) = ''UNKNOWN'' \<and>
   map_of fsType2StringMap (FormatInt 0xef53 16) = Some ''EXT4'' \<and>
   getFSType 0xef53 = ''EXT4''"
proof -
  have neg: "sint (- 1 :: int64) < 0" by simp
  have key: "map_of fsType2StringMap (FormatInt 0xef53 16) = Some ''EXT4''"
    by (simp add: FormatInt_def formatBits_rec formatBits_base digits_def
        fsType2StringMap_def)
  from getFSType_total [of "- 1"] neg have "getFSType (- 1) = ''UNKNOWN''"
    by blast
  moreover from getFSType_total [of "0xef53"] key have "getFSType 0xef53 = ''EXT4''"
    by blast
  ultimately show ?thesis using neg key by simp
qed

section \<open>Properties of the trie and of the command-not-found handler\<close>

lemma Walk_set:
  "set (Walk n) = set_option (terminal n) \<union> (\<Union>p\<in>set (children n). set (Walk (snd p)))"
  by (cases n) (auto split: option.splits)

lemma Walk_NewTrie: "Walk NewTrie = []"
  by (simp add: NewTrie_def)

lemma Walk_child_subset:
  "map_of (children n) c = Some m \<Longrightarrow> set (Walk m) \<subseteq> set (Walk n)"
  by (subst (2) Walk_set) (force dest: map_of_SomeD)

lemma setChild_subset: "set (setChild c n cs) \<subseteq> insert (c, n) (set cs)"
  by (induction c n cs rule: setChild.induct) auto

lemma Walk_Insert_subset: "set (Walk (Insert key v n)) \<subseteq> insert v (set (Walk n))"
proof (induction key arbitrary: n)
  case Nil
  show ?case by (subst Walk_set, subst (2) Walk_set) auto
next
  case (Cons c key)
  let ?child = "case map_of (children n) c of None \<Rightarrow> NewTrie | Some m \<Rightarrow> m"
  have child: "set (Walk ?child) \<subseteq> set (Walk n)"
    by (auto simp: Walk_NewTrie dest: Walk_child_subset split: option.splits)
  have new: "set (Walk (Insert key v ?child)) \<subseteq> insert v (set (Walk n))"
    using Cons.IH[of ?child] child by blast
  have old: "\<And>p. p \<in> set (children n) \<Longrightarrow> set (Walk (snd p)) \<subseteq> set (Walk n)"
    by (subst (2) Walk_set) blast
  have tv: "set_option (terminal n) \<subseteq> set (Walk n)"
    by (subst Walk_set) blast
  show ?case
  proof
    fix x assume "x \<in> set (Walk (Insert (c # key) v n))"
    then consider "x \<in> set_option (terminal n)"
      | p where "p \<in> set (setChild c (Insert key v ?child) (children n))" "x \<in> set (Walk (snd p))"
      by (subst (asm) Walk_set) auto
    then show "x \<in> insert v (set (Walk n))"
    proof cases
      case 1
      then show ?thesis using tv by blast
    next
      case 2
      from 2(1) setChild_subset[of c "Insert key v ?child" "children n"]
      have "p = (c, Insert key v ?child) \<or> p \<in> set (children n)" by blast
      then show ?thesis
      proof
        assume "p = (c, Insert key v ?child)"
        then have "x \<in> set (Walk (Insert key v ?child))" using 2(2) by simp
        then show ?thesis using new by blast
      next
        assume "p \<in> set (children n)"
        then have "set (Walk (snd p)) \<subseteq> set (Walk n)" by (rule old)
        then show ?thesis using 2(2) by blast
      qed
    qed
  qed
qed

lemma Walk_findNode_subset:
  "findNode prefix root = Some n \<Longrightarrow> set (Walk n) \<subseteq> set (Walk root)"
proof (induction prefix arbitrary: root)
  case Nil
  then show ?case by simp
next
  case (Cons c prefix)
  then obtain m where m: "map_of (children root) c = Some m" and f: "findNode prefix m = Some n"
    by (auto split: option.splits)
  from Cons.IH[OF f] Walk_child_subset[OF m] show ?case by blast
qed

lemma PrefixMatch_subset: "set (PrefixMatch prefix root) \<subseteq> set (Walk root)"
proof (cases "findNode prefix root")
  case None
  then show ?thesis by (simp add: PrefixMatch_def)
next
  case (Some n)
  then show ?thesis using Walk_findNode_subset[OF Some] by (simp add: PrefixMatch_def)
qed

lemma stringValued_NewTrie: "stringValued NewTrie"
  by (simp add: stringValued_def Walk_NewTrie)

lemma stringValued_Insert:
  "stringValued t \<Longrightarrow> stringValued (Insert key (StringVal v) t)"
  using Walk_Insert_subset[of key "StringVal v" t]
  by (auto simp: stringValued_def list_all_iff)

lemma stringValued_PrefixMatch:
  "stringValued t \<Longrightarrow> list_all isStringVal (PrefixMatch prefix t)"
  using PrefixMatch_subset[of prefix t]
  by (auto simp: stringValued_def list_all_iff)

lemma appendClosest_strings:
  "list_all isStringVal vs \<Longrightarrow> appendClosest acc vs = Continues (acc @ map theString vs)"
proof (induction vs arbitrary: acc)
  case Nil
  then show ?case by simp
next
  case (Cons v vs)
  then show ?case by (cases v) simp_all
qed

lemma appendClosest_panics:
  "\<not> list_all isStringVal vs \<Longrightarrow> appendClosest acc vs = Panicked"
proof (induction vs arbitrary: acc)
  case Nil
  then show ?case by simp
next
  case (Cons v vs)
  then show ?case by (cases v) simp_all
qed

lemma StringVal_theString:
  "list_all isStringVal vs \<Longrightarrow> map StringVal (map theString vs) = vs"
proof (induction vs)
  case Nil
  then show ?case by simp
next
  case (Cons v vs)
  then show ?case by (cases v) simp_all
qed

lemma findClosestCommands_eq:
  "stringValued (commandsTree s) \<Longrightarrow>
   findClosestCommands command s =
     (Continues (map theString (PrefixMatch command (commandsTree s))), s)"
  by (simp add: findClosestCommands_def appendClosest_strings stringValued_PrefixMatch)

lemma foldl_append_lines:
  "foldl (\<lambda>msg cmd. msg @ f cmd) start xs = start @ concat (map f xs)"
  by (induction xs arbitrary: start) simp_all

lemma notFoundMessage_eq:
  "notFoundMessage command closest =
     lquote @ command @ rquote @ '' is not a minio-xl sub-command. See '' @
       lquote @ ''minio-xl help'' @ rquote @ ''.'' @
     (if closest = [] then []
      else newline @ newline @ ''Did you mean one of these?'' @ newline @
           concat (map (\<lambda>cmd. ''        '' @ lquote @ cmd @ rquote @ newline) closest))"
  using foldl_append_lines[of "\<lambda>cmd. ''        '' @ lquote @ cmd @ rquote @ newline"]
  by (simp add: notFoundMessage_def Let_def)

lemma CommandNotFound_eq:
  "stringValued (commandsTree s) \<Longrightarrow>
   CommandNotFound command s =
     (Terminated ExitNonZero
        (notFoundMessage command (map theString (PrefixMatch command (commandsTree s)))), s)"
  by (simp add: CommandNotFound_def bind_def findClosestCommands_eq Fatalln_def)

lemma scenario_stringValued: "stringValued (commandsTree scenarioState)"
  by code_simp

lemma scenario_contro:
  "PrefixMatch ''contro'' (commandsTree scenarioState) = [StringVal ''controller'']"
  by code_simp

lemma scenario_zzz: "PrefixMatch ''zzz'' (commandsTree scenarioState) = []"
  by code_simp

lemma scenario_all:
  "PrefixMatch [] (commandsTree scenarioState) =
     [StringVal ''server'', StringVal ''gateway'', StringVal ''controller'', StringVal ''version'']"
  by code_simp

lemma scenario_commands:
  "map Name (commands scenarioState) = [''server'', ''gateway'', ''controller'', ''version'']"
  by code_simp

text \<open>
  Claim C10. For every input token, \<^verbatim>\<open>findClosestCommands\<close> returns a list with the
  length and the order of the prefix match of the trie, each element the matched value
  unchanged as a string: the wrapper adds, drops and reorders nothing. The trie holds
  string values, as every trie built by the registrations does.
\<close>

theorem findClosestCommands_PrefixMatch:
  "stringValued (commandsTree s) \<Longrightarrow>
   (\<exists>closest. findClosestCommands command s = (Continues closest, s) \<and>
      length closest = length (PrefixMatch command (commandsTree s)) \<and>
      map StringVal closest = PrefixMatch command (commandsTree s))"
proof -
  assume sv: "stringValued (commandsTree s)"
  let ?vs = "PrefixMatch command (commandsTree s)"
  have "findClosestCommands command s = (Continues (map theString ?vs), s)"
    using sv by (rule findClosestCommands_eq)
  moreover have "map StringVal (map theString ?vs) = ?vs"
    using sv by (intro StringVal_theString stringValued_PrefixMatch)
  ultimately show ?thesis by auto
qed

theorem findClosestCommands_PrefixMatch_witness:
  "stringValued (commandsTree scenarioState) \<and>
   (\<exists>closest. findClosestCommands ''contro'' scenarioState = (Continues closest, scenarioState) \<and>
      length closest = length (PrefixMatch ''contro'' (commandsTree scenarioState)) \<and>
      map StringVal closest = PrefixMatch ''contro'' (commandsTree scenarioState))"
  using findClosestCommands_PrefixMatch [OF scenario_stringValued, of "''contro''"]
    scenario_stringValued by blast

text \<open>
  Claim C2. For every unrecognized token the handler ends in a fatal error with a non-zero
  exit status, whether or not there are suggestions; they change the message only.
\<close>

theorem CommandNotFound_fatal:
  "stringValued (commandsTree s) \<Longrightarrow>
   (\<exists>msg. CommandNotFound command s = (Terminated ExitNonZero msg, s))"
  by (simp add: CommandNotFound_eq)

theorem CommandNotFound_fatal_witness:
  "stringValued (commandsTree scenarioState) \<and>
   (\<exists>msg. CommandNotFound ''zzz'' scenarioState = (Terminated ExitNonZero msg, scenarioState)) \<and>
   (\<exists>msg. CommandNotFound ''contro'' scenarioState = (Terminated ExitNonZero msg, scenarioState))"
  using CommandNotFound_fatal [OF scenario_stringValued, of "''zzz''"]
    CommandNotFound_fatal [OF scenario_stringValued, of "''contro''"]
    scenario_stringValued by blast

text \<open>
  Claim C3. When the prefix match is not empty, the fatal message carries, after its first
  line, the heading \<^verbatim>\<open>Did you mean one of these?\<close> and one quoted line for each matched
  command in the order of the match; when it is empty the message is the first line alone.
\<close>

theorem CommandNotFound_message:
  "stringValued (commandsTree s) \<Longrightarrow>
   CommandNotFound command s =
     (Terminated ExitNonZero
        (let closest = map theString (PrefixMatch command (commandsTree s));
             first = lquote @ command @ rquote @ '' is not a minio-xl sub-command. See '' @
                     lquote @ ''minio-xl help'' @ rquote @ ''.''
         in if closest = [] then first
            else first @ newline @ newline @ ''Did you mean one of these?'' @ newline @
                 concat (map (\<lambda>cmd. ''        '' @ lquote @ cmd @ rquote @ newline) closest)),
      s)"
  by (simp add: CommandNotFound_eq notFoundMessage_eq Let_def)

theorem CommandNotFound_message_witness:
  "stringValued (commandsTree scenarioState) \<and>
   CommandNotFound ''contro'' scenarioState =
     (Terminated ExitNonZero
        (lquote @ ''contro'' @ rquote @ '' is not a minio-xl sub-command. See '' @
         lquote @ ''minio-xl help'' @ rquote @ ''.'' @ newline @ newline @
         ''Did you mean one of these?'' @ newline @
         ''        '' @ lquote @ ''controller'' @ rquote @ newline),
      scenarioState) \<and>
   CommandNotFound ''zzz'' scenarioState =
     (Terminated ExitNonZero
        (lquote @ ''zzz'' @ rquote @ '' is not a minio-xl sub-command. See '' @
         lquote @ ''minio-xl help'' @ rquote @ ''.''),
      scenarioState)"
  using CommandNotFound_message [OF scenario_stringValued, of "''contro''"]
    CommandNotFound_message [OF scenario_stringValued, of "''zzz''"]
    scenario_stringValued
  by (simp add: scenario_contro scenario_zzz)

text \<open>
  Claim C1. With the commands \<^verbatim>\<open>server\<close>, \<^verbatim>\<open>gateway\<close>, \<^verbatim>\<open>controller\<close> and
  \<^verbatim>\<open>version\<close> registered, the token \<^verbatim>\<open>contro\<close> yields the one suggestion
  \<^verbatim>\<open>controller\<close>, the token \<^verbatim>\<open>zzz\<close> yields none and the handler still terminates
  with a non-zero exit, and the empty token yields all four names.
\<close>

theorem scenario_suggestions:
  "map Name (commands scenarioState) = [''server'', ''gateway'', ''controller'', ''version''] \<and>
   fst (findClosestCommands ''contro'' scenarioState) = Continues [''controller''] \<and>
   fst (findClosestCommands ''zzz'' scenarioState) = Continues [] \<and>
   fst (CommandNotFound ''zzz'' scenarioState) =
     Terminated ExitNonZero
       (lquote @ ''zzz'' @ rquote @ '' is not a minio-xl sub-command. See '' @
        lquote @ ''minio-xl help'' @ rquote @ ''.'') \<and>
   (\<exists>closest. fst (findClosestCommands [] scenarioState) = Continues closest \<and>
      length closest = 4 \<and>
      set closest = {''server'', ''gateway'', ''controller'', ''version''})"
proof -
  have "fst (findClosestCommands [] scenarioState) =
      Continues [''server'', ''gateway'', ''controller'', ''version'']"
    by (simp add: findClosestCommands_def scenario_all)
  then have "\<exists>closest. fst (findClosestCommands [] scenarioState) = Continues closest \<and>
      length closest = 4 \<and>
      set closest = {''server'', ''gateway'', ''controller'', ''version''}"
    by auto
  moreover have "fst (findClosestCommands ''contro'' scenarioState) = Continues [''controller'']"
    by (simp add: findClosestCommands_def scenario_contro)
  moreover have "fst (findClosestCommands ''zzz'' scenarioState) = Continues []"
    by (simp add: findClosestCommands_def scenario_zzz)
  moreover have "fst (CommandNotFound ''zzz'' scenarioState) =
     Terminated ExitNonZero
       (lquote @ ''zzz'' @ rquote @ '' is not a minio-xl sub-command. See '' @
        lquote @ ''minio-xl help'' @ rquote @ ''.'')"
    by (simp add: CommandNotFound_eq [OF scenario_stringValued] scenario_zzz notFoundMessage_eq)
  ultimately show ?thesis using scenario_commands by blast
qed

section \<open>Properties of the bootstrap sequence\<close>

lemma stepsTo_bind:
  assumes tr: "\<And>a b c. R a b \<Longrightarrow> R b c \<Longrightarrow> R a c"
    and m: "stepsTo R m" and f: "\<And>a. stepsTo R (f a)"
  shows "stepsTo R (bind m f)"
  unfolding stepsTo_def
proof
  fix s
  have ms: "R s (snd (m s))" using m by (simp add: stepsTo_def)
  show "R s (snd (bind m f s))"
  proof (cases "m s")
    case (Pair r s')
    show ?thesis
    proof (cases r)
      case (Continues a)
      have "R s' (snd (f a s'))" using f by (simp add: stepsTo_def)
      then show ?thesis using ms Pair Continues tr by (auto simp: bind_def)
    next
      case (Terminated st msg)
      then show ?thesis using ms Pair by (simp add: bind_def)
    next
      case Panicked
      then show ?thesis using ms Pair by (simp add: bind_def)
    qed
  qed
qed

lemma stepsTo_seq:
  assumes "\<And>a b c. R a b \<Longrightarrow> R b c \<Longrightarrow> R a c" and "stepsTo R m" and "stepsTo R n"
  shows "stepsTo R (seq m n)"
  unfolding seq_def using assms by (intro stepsTo_bind) auto

lemma noRelookup_trans: "noRelookup a b \<Longrightarrow> noRelookup b c \<Longrightarrow> noRelookup a c"
  by (auto simp: noRelookup_def)

lemma keepsStrings_trans: "keepsStrings a b \<Longrightarrow> keepsStrings b c \<Longrightarrow> keepsStrings a c"
  by (simp add: keepsStrings_def)

lemma stepsTo_registerCommand:
  assumes tr: "\<And>a b c. R a b \<Longrightarrow> R b c \<Longrightarrow> R a c"
    and lg: "\<And>e s. e \<noteq> EvUserCurrent \<Longrightarrow> R s (s\<lparr>trace := trace s @ [e]\<rparr>)"
    and rc: "\<And>s. R s (snd (RegisterCommand cmd s))"
  shows "stepsTo R (registerCommand cmd)"
  unfolding registerCommand_def
proof (rule stepsTo_seq)
  show "stepsTo R (logEvent (EvRegisterCommand (Name cmd)))"
    using lg by (simp add: stepsTo_def logEvent_def)
  show "stepsTo R
     (\<lambda>s. case RegisterCommand cmd s of
            (None, s') \<Rightarrow> (Continues (), s')
          | (Some e, s') \<Rightarrow> Fatalln ''configuration error: duplicate command'' s')"
    unfolding stepsTo_def
  proof
    fix s
    show "R s (snd (case RegisterCommand cmd s of
            (None, s') \<Rightarrow> (Continues (), s')
          | (Some e, s') \<Rightarrow> Fatalln ''configuration error: duplicate command'' s'))"
      using rc[of s]
      by (cases "RegisterCommand cmd s") (auto simp: Fatalln_def split: option.splits)
  qed
qed (rule tr)

lemma stepsTo_registerFlag:
  assumes tr: "\<And>a b c. R a b \<Longrightarrow> R b c \<Longrightarrow> R a c"
    and lg: "\<And>e s. e \<noteq> EvUserCurrent \<Longrightarrow> R s (s\<lparr>trace := trace s @ [e]\<rparr>)"
    and rf: "\<And>s. R s (snd (RegisterFlag flag s))"
  shows "stepsTo R (registerFlag flag)"
  unfolding registerFlag_def
proof (rule stepsTo_seq)
  show "stepsTo R (logEvent (EvRegisterFlag (FlagName flag)))"
    using lg by (simp add: stepsTo_def logEvent_def)
  show "stepsTo R
     (\<lambda>s. case RegisterFlag flag s of
            (None, s') \<Rightarrow> (Continues (), s')
          | (Some e, s') \<Rightarrow> Fatalln ''configuration error: duplicate flag'' s')"
    unfolding stepsTo_def
  proof
    fix s
    show "R s (snd (case RegisterFlag flag s of
            (None, s') \<Rightarrow> (Continues (), s')
          | (Some e, s') \<Rightarrow> Fatalln ''configuration error: duplicate flag'' s'))"
      using rf[of s]
      by (cases "RegisterFlag flag s") (auto simp: Fatalln_def split: option.splits)
  qed
qed (rule tr)

lemma stepsTo_main:
  assumes tr: "\<And>a b c. R a b \<Longrightarrow> R b c \<Longrightarrow> R a c"
    and rf: "\<And>s. R s s"
    and lg: "\<And>e s. e \<noteq> EvUserCurrent \<Longrightarrow> R s (s\<lparr>trace := trace s @ [e]\<rparr>)"
    and rc: "\<And>cmd s. R s (snd (RegisterCommand cmd s))"
    and rg: "\<And>flag s. R s (snd (RegisterFlag flag s))"
  shows "stepsTo R (main d)"
proof -
  have c: "\<And>cmd. stepsTo R (registerCommand cmd)"
    by (rule stepsTo_registerCommand) (fact tr lg rc)+
  have f: "\<And>flag. stepsTo R (registerFlag flag)"
    by (rule stepsTo_registerFlag) (fact tr lg rg)+
  have l: "\<And>e. e \<noteq> EvUserCurrent \<Longrightarrow> stepsTo R (logEvent e)"
    using lg by (simp add: stepsTo_def logEvent_def)
  have app: "stepsTo R (registerApp d)"
    unfolding registerApp_def
    by (intro stepsTo_seq c f) (auto intro: tr simp: stepsTo_def rf)
  show ?thesis
    unfolding main_def
    by (intro stepsTo_seq stepsTo_bind l app) (auto intro: tr)
qed

lemma noRelookup_main: "noRelookup s (snd (main d s))"
proof -
  have "stepsTo noRelookup (main d)"
  proof (rule stepsTo_main)
    show "\<And>a b c. noRelookup a b \<Longrightarrow> noRelookup b c \<Longrightarrow> noRelookup a c"
      by (rule noRelookup_trans)
  qed (simp_all add: noRelookup_def RegisterCommand_def RegisterFlag_def)
  then show ?thesis by (simp add: stepsTo_def)
qed

lemma keepsStrings_main: "keepsStrings s (snd (main d s))"
proof -
  have "stepsTo keepsStrings (main d)"
  proof (rule stepsTo_main)
    show "\<And>a b c. keepsStrings a b \<Longrightarrow> keepsStrings b c \<Longrightarrow> keepsStrings a c"
      by (rule keepsStrings_trans)
  qed (simp_all add: keepsStrings_def RegisterCommand_def RegisterFlag_def stringValued_Insert)
  then show ?thesis by (simp add: stepsTo_def)
qed

lemma init_result:
  "init e initialState =
     (case userCurrentErr e of
        Some err \<Rightarrow>
          (Terminated ExitNonZero
             (''Unable to obtain user's home directory. '' @ newline @ ''Error: '' @ err @ newline),
           initialState\<lparr>trace := [EvUserCurrent]\<rparr>)
      | None \<Rightarrow>
          if euid e = 0
          then (Terminated ExitNonZero
                  (''Please run '' @ lquote @ ''minio'' @ rquote @ '' as a non-root user.''),
                initialState\<lparr>trace := [EvUserCurrent, EvGeteuid]\<rparr>)
          else if runtimeBelowMinimum e
          then (Terminated ExitNonZero ''runtime version is below the supported minimum'',
                initialState\<lparr>trace := [EvUserCurrent, EvGeteuid, EvCheckGolangRuntimeVersion]\<rparr>)
          else (Continues (),
                initialState\<lparr>trace := [EvUserCurrent, EvGeteuid, EvCheckGolangRuntimeVersion]\<rparr>))"
  by (simp add: init_def seq_def bind_def logEvent_def Fatalln_def Fatalf_def ret_def
      checkGolangRuntimeVersion_def initialState_def split: option.splits)

lemma program_eq:
  "program e d =
     (case init e initialState of
        (Continues a, s) \<Rightarrow> main d s
      | (Terminated st msg, s) \<Rightarrow> (Terminated st msg, s)
      | (Panicked, s) \<Rightarrow> (Panicked, s))"
  by (simp add: program_def seq_def bind_def)

lemma program_trace:
  "\<exists>rest. trace (snd (program e d)) = EvUserCurrent # rest \<and> EvUserCurrent \<notin> set rest"
proof -
  let ?s3 = "initialState\<lparr>trace := [EvUserCurrent, EvGeteuid, EvCheckGolangRuntimeVersion]\<rparr>"
  obtain more where "trace (snd (main d ?s3)) = trace ?s3 @ more" "EvUserCurrent \<notin> set more"
    using noRelookup_main[of ?s3 d] by (auto simp: noRelookup_def)
  then have "trace (snd (main d ?s3)) = EvUserCurrent # ([EvGeteuid, EvCheckGolangRuntimeVersion] @ more)
      \<and> EvUserCurrent \<notin> set ([EvGeteuid, EvCheckGolangRuntimeVersion] @ more)"
    by simp
  then have m: "\<exists>rest. trace (snd (main d ?s3)) = EvUserCurrent # rest \<and> EvUserCurrent \<notin> set rest"
    by blast
  show ?thesis
    using m by (simp add: program_eq init_result split: option.splits)
qed

lemma program_stringValued: "stringValued (commandsTree (snd (program e d)))"
proof -
  let ?s3 = "initialState\<lparr>trace := [EvUserCurrent, EvGeteuid, EvCheckGolangRuntimeVersion]\<rparr>"
  have "stringValued (commandsTree ?s3)"
    by (simp add: initialState_def stringValued_NewTrie)
  then have m: "stringValued (commandsTree (snd (main d ?s3)))"
    using keepsStrings_main[of ?s3 d] by (simp add: keepsStrings_def)
  show ?thesis
    using m by (simp add: program_eq init_result split: option.splits)
      (simp add: initialState_def stringValued_NewTrie)
qed

text \<open>A run that passes all checks registers the four commands and the eight flags.\<close>

lemma normal_run_a:
  "fst (program sampleEnv sampleDeclarations) = Continues ()"
  by code_simp

lemma normal_run_b:
  "map Name (commands (snd (program sampleEnv sampleDeclarations))) =
     [''xl'', ''server'', ''controller'', ''version'']"
  by code_simp

lemma normal_run_c:
  "trace (snd (program sampleEnv sampleDeclarations)) =
     [EvUserCurrent, EvGeteuid, EvCheckGolangRuntimeVersion, EvProbeInit,
      EvRegisterCommand ''xl'', EvRegisterCommand ''server'', EvRegisterCommand ''controller'',
      EvRegisterCommand ''version'', EvRegisterFlag ''address'',
      EvRegisterFlag ''address-controller'', EvRegisterFlag ''address-server-rpc'',
      EvRegisterFlag ''ratelimit'', EvRegisterFlag ''anonymous'', EvRegisterFlag ''cert'',
      EvRegisterFlag ''key'', EvRegisterFlag ''json'', EvRunAndExitOnError]"
  by code_simp

text \<open>
  Claim C7. A process started with effective user id 0 terminates fatally before any
  command or flag is registered: the run ends with a non-zero status, its trace has no
  registration, and the registries and the trie are as they were at the start.
\<close>

theorem root_terminates_before_registration:
  "euid e = 0 \<Longrightarrow>
   (\<exists>msg. fst (program e d) = Terminated ExitNonZero msg) \<and>
   commands (snd (program e d)) = [] \<and>
   flags (snd (program e d)) = [] \<and>
   commandsTree (snd (program e d)) = NewTrie \<and>
   \<not> list_ex isRegistration (trace (snd (program e d)))"
  by (simp add: program_eq init_result split: option.splits)
    (simp add: initialState_def)

theorem root_terminates_before_registration_witness:
  "euid (sampleEnv\<lparr>euid := 0\<rparr>) = 0 \<and>
   (\<exists>msg. fst (program (sampleEnv\<lparr>euid := 0\<rparr>) sampleDeclarations) = Terminated ExitNonZero msg) \<and>
   commands (snd (program (sampleEnv\<lparr>euid := 0\<rparr>) sampleDeclarations)) = [] \<and>
   flags (snd (program (sampleEnv\<lparr>euid := 0\<rparr>) sampleDeclarations)) = [] \<and>
   commandsTree (snd (program (sampleEnv\<lparr>euid := 0\<rparr>) sampleDeclarations)) = NewTrie \<and>
   trace (snd (program (sampleEnv\<lparr>euid := 0\<rparr>) sampleDeclarations)) = [EvUserCurrent, EvGeteuid]"
proof -
  have h: "euid (sampleEnv\<lparr>euid := 0\<rparr>) = 0" by simp
  have t: "trace (snd (program (sampleEnv\<lparr>euid := 0\<rparr>) sampleDeclarations)) = [EvUserCurrent, EvGeteuid]"
    by (simp add: program_eq init_result sampleEnv_def)
  from root_terminates_before_registration [OF h, of sampleDeclarations] h t
  show ?thesis by blast
qed

text \<open>
  Claim C8. In every run the identity lookup is the first call, made once, so the
  privilege and the runtime version checks come after it; when it fails the process
  terminates fatally right there, with the lookup as its only call.
\<close>

theorem identity_lookup_first:
  "(\<exists>rest. trace (snd (program e d)) = EvUserCurrent # rest \<and> EvUserCurrent \<notin> set rest) \<and>
   (\<forall>err. userCurrentErr e = Some err \<longrightarrow>
      program e d =
        (Terminated ExitNonZero
           (''Unable to obtain user's home directory. '' @ newline @ ''Error: '' @ err @ newline),
         initialState\<lparr>trace := [EvUserCurrent]\<rparr>))"
  using program_trace [of e d] by (simp add: program_eq init_result)

theorem identity_lookup_first_witness:
  "userCurrentErr (sampleEnv\<lparr>userCurrentErr := Some ''unknown userid''\<rparr>) = Some ''unknown userid'' \<and>
   program (sampleEnv\<lparr>userCurrentErr := Some ''unknown userid''\<rparr>) sampleDeclarations =
     (Terminated ExitNonZero
        (''Unable to obtain user's home directory. '' @ newline @ ''Error: '' @
         ''unknown userid'' @ newline),
      initialState\<lparr>trace := [EvUserCurrent]\<rparr>)"
proof -
  have h: "userCurrentErr (sampleEnv\<lparr>userCurrentErr := Some ''unknown userid''\<rparr>) =
      Some ''unknown userid''" by simp
  from identity_lookup_first [of "sampleEnv\<lparr>userCurrentErr := Some ''unknown userid''\<rparr>"
      sampleDeclarations] h
  show ?thesis by blast
qed

section \<open>Properties of the diagnostics collector and of the registry\<close>

text \<open>
  Claim C4. Every call of \<^verbatim>\<open>getSystemData\<close> returns a map whose keys are exactly
  \<^verbatim>\<open>PLATFORM\<close>, \<^verbatim>\<open>RUNTIME\<close> and \<^verbatim>\<open>MEM\<close>, whatever the state of process and host.
\<close>

theorem getSystemData_keys:
  "dom (getSystemData e) = {''PLATFORM'', ''RUNTIME'', ''MEM''}"
  by (auto simp: getSystemData_def Let_def)

text \<open>
  Claim C5. When the host name lookup fails, the collector takes the empty string for the
  host and returns the complete map all the same: the result is the one of an environment
  whose lookup gave the empty name without an error.
\<close>

theorem getSystemData_hostname_failure:
  "snd (hostname e) = Some err \<Longrightarrow>
   getSystemData e = getSystemData (e\<lparr>hostname := ([], None)\<rparr>) \<and>
   getSystemData e ''PLATFORM'' =
     Some (''Host: '' @ [] @ '' | OS: '' @ GOOS e @ '' | Arch: '' @ GOARCH e) \<and>
   dom (getSystemData e) = {''PLATFORM'', ''RUNTIME'', ''MEM''}"
  by (auto simp: getSystemData_def Let_def)

theorem getSystemData_hostname_failure_witness:
  "snd (hostname sampleEnv) = Some ''no such host'' \<and>
   getSystemData sampleEnv ''PLATFORM'' = Some ''Host:  | OS: linux | Arch: amd64'' \<and>
   dom (getSystemData sampleEnv) = {''PLATFORM'', ''RUNTIME'', ''MEM''}"
proof -
  have h: "snd (hostname sampleEnv) = Some ''no such host''"
    by (simp add: sampleEnv_def)
  from getSystemData_hostname_failure [OF h]
  have p: "getSystemData sampleEnv ''PLATFORM'' =
      Some (''Host: '' @ [] @ '' | OS: '' @ GOOS sampleEnv @ '' | Arch: '' @ GOARCH sampleEnv)"
    and k: "dom (getSystemData sampleEnv) = {''PLATFORM'', ''RUNTIME'', ''MEM''}"
    by blast+
  have "getSystemData sampleEnv ''PLATFORM'' = Some ''Host:  | OS: linux | Arch: amd64''"
    unfolding p by (simp add: sampleEnv_def)
  then show ?thesis using h k by blast
qed

text \<open>
  Claim C6. Registering a command whose name is already in the registry fails with a
  configuration error and leaves the state, command list and trie included, as it was;
  in particular the second of two registrations under one name fails and changes nothing.
\<close>

theorem RegisterCommand_duplicate:
  "(Name cmd \<in> set (map Name (commands s)) \<longrightarrow>
      RegisterCommand cmd s = (Some (DuplicateCommand (Name cmd)), s)) \<and>
   (Name cmd = Name first \<longrightarrow>
      RegisterCommand cmd (snd (RegisterCommand first s)) =
        (Some (DuplicateCommand (Name cmd)), snd (RegisterCommand first s)))"
  by (simp add: RegisterCommand_def)

theorem RegisterCommand_duplicate_witness:
  "Name (mkCommand ''server'') \<in> set (map Name (commands scenarioState)) \<and>
   RegisterCommand (mkCommand ''server'') scenarioState =
     (Some (DuplicateCommand ''server''), scenarioState) \<and>
   RegisterCommand (mkCommand ''xl'') (snd (RegisterCommand (mkCommand ''xl'') initialState)) =
     (Some (DuplicateCommand ''xl''), snd (RegisterCommand (mkCommand ''xl'') initialState))"
proof -
  have h: "Name (mkCommand ''server'') \<in> set (map Name (commands scenarioState))"
    by (simp add: scenario_commands mkCommand_def)
  from RegisterCommand_duplicate [of "mkCommand ''server''" scenarioState] h
  have a: "RegisterCommand (mkCommand ''server'') scenarioState =
     (Some (DuplicateCommand (Name (mkCommand ''server''))), scenarioState)"
    by blast
  from RegisterCommand_duplicate [of "mkCommand ''xl''" initialState "mkCommand ''xl''"]
  have b: "RegisterCommand (mkCommand ''xl'') (snd (RegisterCommand (mkCommand ''xl'') initialState)) =
     (Some (DuplicateCommand (Name (mkCommand ''xl''))),
      snd (RegisterCommand (mkCommand ''xl'') initialState))"
    by blast
  have n: "Name (mkCommand ''server'') = ''server''" "Name (mkCommand ''xl'') = ''xl''"
    by (simp_all add: mkCommand_def)
  show ?thesis using h a b unfolding n by blast
qed

end
